theory Spec2Isabelle
  imports Main "HOL-Library.Word"
begin

unbundle bit_operations_syntax

section \<open>Values of the platform\<close>

text \<open>
  The repository is TypeScript running in a browser. A \<^verbatim>\<open>Uint8Array\<close> is a list of
  bytes; a JavaScript string is a sequence of 16-bit code units. \<open>js\<close> turns an ASCII
  literal into such a string.
\<close>

type_synonym byte = "8 word"
type_synonym code_unit = "16 word"
type_synonym jsstring = "code_unit list"

definition js :: "string \<Rightarrow> jsstring" where
  "js s = map (\<lambda>c. of_nat (of_char c)) s"

text \<open>
  Everything the modelled code can throw. \<open>InvalidCharacterError\<close> is the DOMException of
  \<^verbatim>\<open>atob\<close>/\<^verbatim>\<open>btoa\<close>; \<open>QuotaExceededError\<close> is the one of \<^verbatim>\<open>crypto.getRandomValues\<close>;
  \<open>DataError\<close> is the rejection of \<^verbatim>\<open>crypto.subtle.importKey\<close>; \<open>DecryptionFailed\<close> is
  \<^verbatim>\<open>new Error('Decryption failed: Invalid key or corrupted data')\<close>;
  \<open>ShareLengthMismatch\<close> is \<^verbatim>\<open>new Error('Share lengths do not match')\<close>;
  \<open>FileNotFound\<close> is \<^verbatim>\<open>new Error('File not found')\<close>; \<open>DbError\<close> is an error object
  returned by the persistence client and rethrown.
\<close>

datatype error =
    InvalidCharacterError
  | QuotaExceededError
  | DataError
  | DecryptionFailed
  | ShareLengthMismatch
  | FileNotFound
  | DbError

fun bindE :: "error + 'a \<Rightarrow> ('a \<Rightarrow> error + 'b) \<Rightarrow> error + 'b" where
  "bindE (Inl e) f = Inl e"
| "bindE (Inr x) f = f x"

section \<open>Codec: \<^verbatim>\<open>btoa\<close>, \<^verbatim>\<open>atob\<close> and the two buffer conversions\<close>

text \<open>
  \<^verbatim>\<open>btoa\<close> and \<^verbatim>\<open>atob\<close> are the browser's; they are modelled from their definition
  (HTML Standard: forgiving-base64 encode and decode of the Infra Standard, the
  alphabet of RFC 4648 section 4).
\<close>

definition b64_alphabet :: jsstring where
  "b64_alphabet = js ''ABCDEFGHIJKLMNOPQRSTUVWXYZabcdefghijklmnopqrstuvwxyz0123456789+/''"

definition b64_pad :: code_unit where
  "b64_pad = 61"

definition b64_char :: "nat \<Rightarrow> code_unit" where
  "b64_char i = b64_alphabet ! i"

fun index_of :: "'a \<Rightarrow> 'a list \<Rightarrow> nat option" where
  "index_of x [] = None"
| "index_of x (y # ys) = (if x = y then Some 0 else map_option Suc (index_of x ys))"

definition b64_index :: "code_unit \<Rightarrow> nat option" where
  "b64_index c = index_of c b64_alphabet"

text \<open>
  Encoding: each group of three bytes is a 24-bit number cut into four 6-bit digits; a
  final group of one or two bytes is padded with zero bits to two or three digits and
  completed with \<open>=\<close>.
\<close>

fun b64_encode :: "byte list \<Rightarrow> jsstring" where
  "b64_encode [] = []"
| "b64_encode [a] =
     (let n = unat a * 16
      in [b64_char (n div 64), b64_char (n mod 64), b64_pad, b64_pad])"
| "b64_encode [a, b] =
     (let n = (unat a * 256 + unat b) * 4
      in [b64_char (n div 4096), b64_char (n div 64 mod 64), b64_char (n mod 64), b64_pad])"
| "b64_encode (a # b # c # rest) =
     (let n = (unat a * 256 + unat b) * 256 + unat c
      in [b64_char (n div 262144), b64_char (n div 4096 mod 64),
          b64_char (n div 64 mod 64), b64_char (n mod 64)]) @ b64_encode rest"

definition btoa :: "jsstring \<Rightarrow> error + jsstring" where
  "btoa s = (if list_ex (\<lambda>c. 255 < c) s then Inl InvalidCharacterError
             else Inr (b64_encode (map ucast s)))"

definition ascii_whitespace :: "code_unit \<Rightarrow> bool" where
  "ascii_whitespace c = (c = 9 \<or> c = 10 \<or> c = 12 \<or> c = 13 \<or> c = 32)"

text \<open>
  Forgiving-base64 decode, step 2: when the length is a multiple of four, one or two
  trailing \<open>=\<close> are removed.
\<close>

definition strip_padding :: "jsstring \<Rightarrow> jsstring" where
  "strip_padding d =
     (if length d mod 4 = 0 then
        (if 2 \<le> length d \<and> last d = b64_pad \<and> last (butlast d) = b64_pad
           then butlast (butlast d)
         else if d \<noteq> [] \<and> last d = b64_pad then butlast d
         else d)
      else d)"

text \<open>
  Steps 5 to 10: the digits are accumulated 24 bits at a time; 12 left-over bits lose
  their last four, 18 left-over bits their last two. A single left-over digit does not
  occur: step 3 has rejected such a length.
\<close>

fun b64_decode_digits :: "nat list \<Rightarrow> byte list" where
  "b64_decode_digits [] = []"
| "b64_decode_digits [s1] = []"
| "b64_decode_digits [s1, s2] =
     (let n = (s1 * 64 + s2) div 16 in [of_nat n])"
| "b64_decode_digits [s1, s2, s3] =
     (let n = ((s1 * 64 + s2) * 64 + s3) div 4
      in [of_nat (n div 256), of_nat (n mod 256)])"
| "b64_decode_digits (s1 # s2 # s3 # s4 # rest) =
     (let n = ((s1 * 64 + s2) * 64 + s3) * 64 + s4
      in [of_nat (n div 65536), of_nat (n div 256 mod 256), of_nat (n mod 256)])
     @ b64_decode_digits rest"

definition atob :: "jsstring \<Rightarrow> error + jsstring" where
  "atob s =
     (let d = strip_padding (filter (\<lambda>c. \<not> ascii_whitespace c) s)
      in if length d mod 4 = 1 then Inl InvalidCharacterError
         else (case those (map b64_index d) of
                 None \<Rightarrow> Inl InvalidCharacterError
               | Some ds \<Rightarrow> Inr (map ucast (b64_decode_digits ds))))"

text \<open>
  \<^verbatim>\<open>CryptoUtils.arrayBufferToBase64\<close>: the loop appends
  \<^verbatim>\<open>String.fromCharCode(bytes[i])\<close> for every index, then calls \<^verbatim>\<open>btoa\<close>.
  \<^verbatim>\<open>CryptoUtils.base64ToArrayBuffer\<close>: \<^verbatim>\<open>atob\<close>, then the loop stores
  \<^verbatim>\<open>binary.charCodeAt(i)\<close> into a \<^verbatim>\<open>Uint8Array\<close> (a store that keeps the low 8 bits).
\<close>

definition arrayBufferToBase64 :: "byte list \<Rightarrow> error + jsstring" where
  "arrayBufferToBase64 buffer = btoa (map ucast buffer)"

definition base64ToArrayBuffer :: "jsstring \<Rightarrow> error + byte list" where
  "base64ToArrayBuffer base64 = bindE (atob base64) (\<lambda>binary. Inr (map ucast binary))"

section \<open>Text encoding: \<^verbatim>\<open>TextEncoder\<close> and \<^verbatim>\<open>TextDecoder\<close>\<close>

text \<open>
  Both are the browser's, modelled from the Encoding Standard. \<^verbatim>\<open>TextEncoder.encode\<close>
  first reads the string as scalar values (a surrogate pair is one code point, a lone
  surrogate becomes U+FFFD), then writes UTF-8.
\<close>

definition is_lead_surrogate :: "code_unit \<Rightarrow> bool" where
  "is_lead_surrogate c = (0xD800 \<le> c \<and> c \<le> 0xDBFF)"

definition is_trail_surrogate :: "code_unit \<Rightarrow> bool" where
  "is_trail_surrogate c = (0xDC00 \<le> c \<and> c \<le> 0xDFFF)"

fun code_points :: "jsstring \<Rightarrow> nat list" where
  "code_points [] = []"
| "code_points [c] =
     (if is_lead_surrogate c \<or> is_trail_surrogate c then [0xFFFD] else [unat c])"
| "code_points (c # d # rest) =
     (if is_lead_surrogate c \<and> is_trail_surrogate d
        then (0x10000 + (unat c - 0xD800) * 0x400 + (unat d - 0xDC00)) # code_points rest
      else if is_lead_surrogate c \<or> is_trail_surrogate c
        then 0xFFFD # code_points (d # rest)
      else unat c # code_points (d # rest))"

definition utf8_encode_code_point :: "nat \<Rightarrow> byte list" where
  "utf8_encode_code_point cp =
     (if cp < 0x80 then [of_nat cp]
      else if cp < 0x800 then [of_nat (0xC0 + cp div 64), of_nat (0x80 + cp mod 64)]
      else if cp < 0x10000 then
        [of_nat (0xE0 + cp div 4096), of_nat (0x80 + cp div 64 mod 64), of_nat (0x80 + cp mod 64)]
      else
        [of_nat (0xF0 + cp div 262144), of_nat (0x80 + cp div 4096 mod 64),
         of_nat (0x80 + cp div 64 mod 64), of_nat (0x80 + cp mod 64)])"

definition TextEncoder_encode :: "jsstring \<Rightarrow> byte list" where
  "TextEncoder_encode s = concat (map utf8_encode_code_point (code_points s))"

text \<open>
  The UTF-8 decoder of the Encoding Standard, in its default (replacement) error mode.
  \<open>utf8_lead\<close> is the handler's step 3 (no bytes pending); the state of a pending
  sequence is the code point so far, the number of bytes still needed, and the lower
  and upper boundary for the next byte.
\<close>

datatype utf8_step = Emit nat | Pending nat nat nat nat | Malformed

definition utf8_lead :: "nat \<Rightarrow> utf8_step" where
  "utf8_lead b =
     (if b \<le> 0x7F then Emit b
      else if 0xC2 \<le> b \<and> b \<le> 0xDF then Pending (b mod 32) 1 0x80 0xBF
      else if 0xE0 \<le> b \<and> b \<le> 0xEF then
        Pending (b mod 16) 2 (if b = 0xE0 then 0xA0 else 0x80) (if b = 0xED then 0x9F else 0xBF)
      else if 0xF0 \<le> b \<and> b \<le> 0xF4 then
        Pending (b mod 8) 3 (if b = 0xF0 then 0x90 else 0x80) (if b = 0xF4 then 0x8F else 0xBF)
      else Malformed)"

text \<open>
  The decoder's state is \<open>None\<close> when no bytes are pending. A byte outside the
  boundaries ends the pending sequence with U+FFFD and is read again with no bytes
  pending; the end of input inside a sequence gives U+FFFD.
\<close>

fun utf8_decode_from :: "(nat \<times> nat \<times> nat \<times> nat) option \<Rightarrow> byte list \<Rightarrow> nat list" where
  "utf8_decode_from None [] = []"
| "utf8_decode_from (Some st) [] = [0xFFFD]"
| "utf8_decode_from None (b # bs) =
     (case utf8_lead (unat b) of
        Emit c \<Rightarrow> c # utf8_decode_from None bs
      | Pending cp needed lower upper \<Rightarrow> utf8_decode_from (Some (cp, needed, lower, upper)) bs
      | Malformed \<Rightarrow> 0xFFFD # utf8_decode_from None bs)"
| "utf8_decode_from (Some (cp, needed, lower, upper)) (b # bs) =
     (if unat b < lower \<or> upper < unat b then
        0xFFFD # (case utf8_lead (unat b) of
                    Emit c \<Rightarrow> c # utf8_decode_from None bs
                  | Pending cp' needed' lower' upper' \<Rightarrow>
                      utf8_decode_from (Some (cp', needed', lower', upper')) bs
                  | Malformed \<Rightarrow> 0xFFFD # utf8_decode_from None bs)
      else if needed = 1 then (cp * 64 + unat b mod 64) # utf8_decode_from None bs
      else utf8_decode_from (Some (cp * 64 + unat b mod 64, needed - 1, 0x80, 0xBF)) bs)"

definition utf16_units :: "nat \<Rightarrow> jsstring" where
  "utf16_units cp =
     (if cp < 0x10000 then [of_nat cp]
      else [of_nat (0xD800 + (cp - 0x10000) div 0x400), of_nat (0xDC00 + (cp - 0x10000) mod 0x400)])"

text \<open>\<^verbatim>\<open>new TextDecoder().decode\<close>: UTF-8, and a byte order mark at the start is dropped.\<close>

definition TextDecoder_decode :: "byte list \<Rightarrow> jsstring" where
  "TextDecoder_decode bs =
     (let cps = utf8_decode_from None bs
      in concat (map utf16_units (case cps of c # rest \<Rightarrow> if c = 0xFEFF then rest else cps
                                   | [] \<Rightarrow> [])))"

section \<open>The cipher engine and the random source\<close>

text \<open>
  \<^verbatim>\<open>crypto.subtle\<close> is not code of the repository. Its AES-GCM encryption and decryption
  (key bytes, IV, data; tag length 128) and its SHA-256 digest are parameters of the
  model. Encryption is total: the only inputs it rejects (an IV or plaintext beyond
  the limits of GCM) are larger than any buffer the code passes. Decryption returns
  \<open>None\<close> where the promise is rejected.
\<close>

record engine =
  aes_gcm_encrypt :: "byte list \<Rightarrow> byte list \<Rightarrow> byte list \<Rightarrow> byte list"
  aes_gcm_decrypt :: "byte list \<Rightarrow> byte list \<Rightarrow> byte list \<Rightarrow> byte list option"
  sha256 :: "byte list \<Rightarrow> byte list"

text \<open>A \<^verbatim>\<open>CryptoKey\<close> of this code is always an extractable AES-GCM key: its raw bytes.\<close>

datatype CryptoKey = AesGcmKey (key_bytes: "byte list")

record EncryptionResult =
  encryptedData :: jsstring
  iv :: jsstring
  authTag :: jsstring

datatype share_type = user_share | recovery_share | device_share

record ShamirShare =
  shareType :: share_type
  encryptedShare :: jsstring

section \<open>The persisted records and the world\<close>

text \<open>
  Rows of the tables \<^verbatim>\<open>encrypted_files\<close>, \<^verbatim>\<open>key_shares\<close>, \<^verbatim>\<open>share_links\<close> and
  \<^verbatim>\<open>activity_logs\<close>, with the columns the modelled functions read or write.
  Timestamps are milliseconds since the epoch; a nullable column is an \<open>option\<close>.
  Columns named alike in several tables carry the table in their name. A log row
  keeps the user, the action, the status and the error itself, where the code stores
  its message.
\<close>

record EncryptedFile =
  file_id :: jsstring
  file_user_id :: jsstring
  file_name :: jsstring
  encrypted_data :: jsstring
  file_iv :: jsstring
  auth_tag :: jsstring
  version :: int
  is_deleted :: bool
  deleted_at :: "int option"
  key_rotation_date :: int
  last_accessed :: "int option"

record KeyShare =
  ks_user_id :: jsstring
  ks_file_id :: jsstring
  ks_share_type :: share_type
  encrypted_share :: jsstring

record ShareLink =
  share_id :: jsstring
  share_file_id :: jsstring
  share_user_id :: jsstring
  token :: jsstring
  password_hash :: "jsstring option"
  expires_at :: "int option"
  one_time_view :: bool
  view_count :: int
  max_views :: "int option"
  is_active :: bool

record ActivityLog =
  log_user_id :: "jsstring option"
  action :: string
  status :: string
  error_message :: "error option"

text \<open>
  The world a call runs in: the random source read by \<^verbatim>\<open>crypto.getRandomValues\<close> and
  \<^verbatim>\<open>generateKey\<close>, the clock read by \<^verbatim>\<open>new Date()\<close>, and the tables. The persistence
  client is an in-memory store: a query fails only where its shape or the schema
  makes it fail (more than one row for \<^verbatim>\<open>maybeSingle\<close>, a value outside a column's
  range).
\<close>

record world =
  rng :: "nat \<Rightarrow> byte"
  clock :: int
  encrypted_files :: "EncryptedFile list"
  key_shares :: "KeyShare list"
  share_links :: "ShareLink list"
  activity_logs :: "ActivityLog list"

text \<open>
  An operation that reads or changes the world returns its result, or the error it
  throws, with the world it leaves behind.
\<close>

type_synonym 'a io = "world \<Rightarrow> (error + 'a) \<times> world"

definition bindW :: "'a io \<Rightarrow> ('a \<Rightarrow> 'b io) \<Rightarrow> 'b io" where
  "bindW m f w = (case m w of (Inl e, w') \<Rightarrow> (Inl e, w') | (Inr x, w') \<Rightarrow> f x w')"

definition liftE :: "error + 'a \<Rightarrow> 'a io" where
  "liftE r w = (r, w)"

text \<open>\<^verbatim>\<open>try { m } catch (error) { h(error) }\<close>\<close>

definition catchW :: "'a io \<Rightarrow> (error \<Rightarrow> 'a io) \<Rightarrow> 'a io" where
  "catchW m h w = (case m w of (Inl e, w') \<Rightarrow> h e w' | (Inr x, w') \<Rightarrow> (Inr x, w'))"

text \<open>
  \<open>draw n\<close> reads the next \<open>n\<close> bytes of the random source.
  \<^verbatim>\<open>crypto.getRandomValues\<close> fills an array with them, and throws a
  \<open>QuotaExceededError\<close> for an array of more than 65536 bytes (Web Cryptography API,
  the \<^verbatim>\<open>getRandomValues\<close> method).
\<close>

definition draw :: "nat \<Rightarrow> world \<Rightarrow> byte list \<times> world" where
  "draw n w = (map (rng w) [0..<n], w\<lparr>rng := \<lambda>i. rng w (i + n)\<rparr>)"

definition getRandomValues :: "nat \<Rightarrow> byte list io" where
  "getRandomValues n w =
     (if 65536 < n then (Inl QuotaExceededError, w)
      else (let (bs, w') = draw n w in (Inr bs, w')))"

section \<open>\<^verbatim>\<open>CryptoUtils\<close>\<close>

text \<open>
  \<^verbatim>\<open>generateKey\<close> asks the engine for 256 random bits; they come from the same random
  source. \<^verbatim>\<open>exportKey\<close> is the base64 of the raw key.
\<close>

definition generateKey :: "world \<Rightarrow> CryptoKey \<times> world" where
  "generateKey w = (let (raw, w') = draw 32 w in (AesGcmKey raw, w'))"

definition exportKey :: "CryptoKey \<Rightarrow> error + jsstring" where
  "exportKey key = arrayBufferToBase64 (key_bytes key)"

text \<open>
  \<^verbatim>\<open>crypto.subtle.importKey('raw', keyBuffer, {name: 'AES-GCM', length: 256}, ...)\<close>.
  The import operation of AES-GCM (Web Cryptography API, AES-GCM, Import Key) reads
  the algorithm's name only and throws a \<open>DataError\<close> unless the data has 128, 192 or
  256 bits; the member \<^verbatim>\<open>length\<close> of the third argument is not read.
\<close>

definition subtle_importKey_raw :: "byte list \<Rightarrow> error + CryptoKey" where
  "subtle_importKey_raw keyData =
     (if length keyData = 16 \<or> length keyData = 24 \<or> length keyData = 32
        then Inr (AesGcmKey keyData)
      else Inl DataError)"

definition importKey :: "jsstring \<Rightarrow> error + CryptoKey" where
  "importKey keyString = bindE (base64ToArrayBuffer keyString) subtle_importKey_raw"

text \<open>
  \<^verbatim>\<open>TypedArray.prototype.slice(start, end)\<close>: a negative index counts from the end, and
  both indices are clamped to the array; a missing \<^verbatim>\<open>end\<close> is the length.
\<close>

definition js_slice :: "int \<Rightarrow> int option \<Rightarrow> 'a list \<Rightarrow> 'a list" where
  "js_slice start fin xs =
     (let len = int (length xs);
          clamp = (\<lambda>i. if i < 0 then max (len + i) 0 else min i len);
          k = clamp start;
          final = (case fin of None \<Rightarrow> len | Some e \<Rightarrow> clamp e)
      in take (nat (final - k)) (drop (nat k) xs))"

text \<open>The argument \<^verbatim>\<open>data: ArrayBuffer | string\<close> of \<^verbatim>\<open>encryptData\<close>.\<close>

datatype payload = TextPayload jsstring | BinaryPayload "byte list"

fun payload_bytes :: "payload \<Rightarrow> byte list" where
  "payload_bytes (TextPayload s) = TextEncoder_encode s"
| "payload_bytes (BinaryPayload b) = b"

definition authTagLength :: int where
  "authTagLength = 16"

definition encryptData :: "engine \<Rightarrow> payload \<Rightarrow> CryptoKey \<Rightarrow> EncryptionResult io" where
  "encryptData E data key =
     bindW (getRandomValues 12) (\<lambda>ivBytes.
       (let dataBuffer = payload_bytes data;
            encryptedArray = aes_gcm_encrypt E (key_bytes key) ivBytes dataBuffer;
            ciphertext = js_slice 0 (Some (- authTagLength)) encryptedArray;
            tag = js_slice (- authTagLength) None encryptedArray
        in liftE (bindE (arrayBufferToBase64 ciphertext) (\<lambda>c.
                  bindE (arrayBufferToBase64 ivBytes) (\<lambda>i.
                  bindE (arrayBufferToBase64 tag) (\<lambda>t.
                    Inr \<lparr>encryptedData = c, iv = i, authTag = t\<rparr>))))))"

text \<open>
  \<^verbatim>\<open>decryptData\<close>: the three decodings stand before the \<^verbatim>\<open>try\<close>, so their exception
  leaves the function as it is; only a rejection of \<^verbatim>\<open>crypto.subtle.decrypt\<close> is caught
  and replaced by the generic error.
\<close>

definition decryptData :: "engine \<Rightarrow> jsstring \<Rightarrow> jsstring \<Rightarrow> jsstring \<Rightarrow> CryptoKey \<Rightarrow> error + byte list" where
  "decryptData E encData ivString tagString key =
     bindE (base64ToArrayBuffer encData) (\<lambda>ciphertext.
     bindE (base64ToArrayBuffer ivString) (\<lambda>ivBuffer.
     bindE (base64ToArrayBuffer tagString) (\<lambda>authTagBuffer.
       (let encryptedBuffer = ciphertext @ authTagBuffer
        in case aes_gcm_decrypt E (key_bytes key) ivBuffer encryptedBuffer of
             Some decrypted \<Rightarrow> Inr decrypted
           | None \<Rightarrow> Inl DecryptionFailed))))"

definition decryptToString :: "engine \<Rightarrow> jsstring \<Rightarrow> jsstring \<Rightarrow> jsstring \<Rightarrow> CryptoKey \<Rightarrow> error + jsstring" where
  "decryptToString E encData ivString tagString key =
     bindE (decryptData E encData ivString tagString key) (\<lambda>decrypted.
       Inr (TextDecoder_decode decrypted))"

definition hashPassword :: "engine \<Rightarrow> jsstring \<Rightarrow> error + jsstring" where
  "hashPassword E password = arrayBufferToBase64 (sha256 E (TextEncoder_encode password))"

text \<open>
  \<^verbatim>\<open>splitSecretShamir\<close>: two random arrays of the secret's length, and the loop
  \<^verbatim>\<open>share3[i] = secretBytes[i] ^ randomBytes1[i] ^ randomBytes2[i]\<close>.
\<close>

definition splitSecretShamir :: "jsstring \<Rightarrow> ShamirShare list io" where
  "splitSecretShamir secret =
     (let secretBytes = TextEncoder_encode secret
      in bindW (getRandomValues (length secretBytes)) (\<lambda>randomBytes1.
         bindW (getRandomValues (length secretBytes)) (\<lambda>randomBytes2.
           (let share3 = map (\<lambda>i. secretBytes ! i XOR randomBytes1 ! i XOR randomBytes2 ! i)
                           [0..<length secretBytes]
            in liftE (bindE (arrayBufferToBase64 randomBytes1) (\<lambda>s1.
                      bindE (arrayBufferToBase64 randomBytes2) (\<lambda>s2.
                      bindE (arrayBufferToBase64 share3) (\<lambda>s3.
                        Inr [\<lparr>shareType = user_share, encryptedShare = s1\<rparr>,
                             \<lparr>shareType = recovery_share, encryptedShare = s2\<rparr>,
                             \<lparr>shareType = device_share, encryptedShare = s3\<rparr>]))))))))"

definition reconstructSecretShamir :: "jsstring \<Rightarrow> jsstring \<Rightarrow> error + jsstring" where
  "reconstructSecretShamir share1 share2 =
     bindE (base64ToArrayBuffer share1) (\<lambda>bytes1.
     bindE (base64ToArrayBuffer share2) (\<lambda>bytes2.
       if length bytes1 \<noteq> length bytes2 then Inl ShareLengthMismatch
       else Inr (TextDecoder_decode
                  (map (\<lambda>i. bytes1 ! i XOR bytes2 ! i) [0..<length bytes1]))))"

section \<open>The persistence client and the activity log\<close>

text \<open>JavaScript truthiness of a nullable string and of a nullable number.\<close>

definition truthy_string :: "jsstring option \<Rightarrow> bool" where
  "truthy_string s = (case s of None \<Rightarrow> False | Some x \<Rightarrow> x \<noteq> [])"

definition truthy_number :: "int option \<Rightarrow> bool" where
  "truthy_number n = (case n of None \<Rightarrow> False | Some x \<Rightarrow> x \<noteq> 0)"


text \<open>
  \<^verbatim>\<open>.maybeSingle()\<close> gives no data for no row, the row when there is one, and an error
  for more than one.
\<close>

definition maybeSingle :: "'a list \<Rightarrow> error + 'a option" where
  "maybeSingle rows = (case rows of [] \<Rightarrow> Inr None | [r] \<Rightarrow> Inr (Some r) | _ \<Rightarrow> Inl DbError)"

text \<open>The columns \<^verbatim>\<open>version\<close> and \<^verbatim>\<open>view_count\<close> have the SQL type \<^verbatim>\<open>integer\<close>.\<close>

definition pg_integer :: "int \<Rightarrow> bool" where
  "pg_integer v = (- 2147483648 \<le> v \<and> v \<le> 2147483647)"

text \<open>
  \<^verbatim>\<open>activityLogService.log\<close> inserts a row and swallows every failure:
  \<^verbatim>\<open>user_id: params.userId || null\<close>.
\<close>

definition log_activity :: "jsstring option \<Rightarrow> string \<Rightarrow> string \<Rightarrow> error option \<Rightarrow> world \<Rightarrow> world" where
  "log_activity userId act st err w =
     w\<lparr>activity_logs := activity_logs w @
          [\<lparr>log_user_id = (if truthy_string userId then userId else None),
            action = act, status = st, error_message = err\<rparr>]\<rparr>"

section \<open>\<^verbatim>\<open>ShareService\<close>\<close>


definition validateShareAccess :: "engine \<Rightarrow> ShareLink \<Rightarrow> jsstring option \<Rightarrow> world \<Rightarrow> error + bool" where
  "validateShareAccess E shareLink password w =
     (if (case expires_at shareLink of None \<Rightarrow> False | Some t \<Rightarrow> t < clock w) then Inr False
      else if (case max_views shareLink of None \<Rightarrow> False
               | Some m \<Rightarrow> m \<noteq> 0 \<and> m \<le> view_count shareLink) then Inr False
      else if truthy_string (password_hash shareLink) \<and> truthy_string password then
        bindE (hashPassword E (case password of Some p \<Rightarrow> p | None \<Rightarrow> [])) (\<lambda>hashedPassword.
          if Some hashedPassword \<noteq> password_hash shareLink then Inr False else Inr True)
      else if truthy_string (password_hash shareLink) \<and> \<not> truthy_string password then Inr False
      else Inr True)"


section \<open>\<^verbatim>\<open>FileService\<close>\<close>

definition getFileById :: "jsstring \<Rightarrow> world \<Rightarrow> error + EncryptedFile option" where
  "getFileById fileId w = maybeSingle (filter (\<lambda>f. file_id f = fileId) (encrypted_files w))"

definition touch_last_accessed :: "jsstring \<Rightarrow> world \<Rightarrow> world" where
  "touch_last_accessed fileId w =
     w\<lparr>encrypted_files :=
         map (\<lambda>f. if file_id f = fileId then f\<lparr>last_accessed := Some (clock w)\<rparr> else f)
           (encrypted_files w)\<rparr>"

definition decryptFile :: "engine \<Rightarrow> EncryptedFile \<Rightarrow> CryptoKey \<Rightarrow> jsstring \<Rightarrow> byte list io" where
  "decryptFile E file key userId =
     catchW
       (bindW (liftE (decryptData E (encrypted_data file) (file_iv file) (auth_tag file) key))
          (\<lambda>decrypted w.
             (Inr decrypted,
              log_activity (Some userId) ''file_decrypt'' ''success'' None
                (touch_last_accessed (file_id file) w))))
       (\<lambda>err w. (Inl err, log_activity (Some userId) ''file_decrypt'' ''failed'' (Some err) w))"

text \<open>
  The update of \<^verbatim>\<open>regenerateFileKey\<close>; its error is thrown. The rows of \<^verbatim>\<open>key_shares\<close>
  of the file are deleted and the three new ones inserted; those results are not read.
\<close>

definition update_rotated :: "jsstring \<Rightarrow> EncryptionResult \<Rightarrow> int \<Rightarrow> unit io" where
  "update_rotated fileId newEncryption newVersion w =
     (if pg_integer newVersion then
        (Inr (),
         w\<lparr>encrypted_files :=
             map (\<lambda>f. if file_id f = fileId
                       then f\<lparr>encrypted_data := encryptedData newEncryption,
                              file_iv := iv newEncryption,
                              auth_tag := authTag newEncryption,
                              key_rotation_date := clock w,
                              version := newVersion\<rparr>
                       else f)
               (encrypted_files w)\<rparr>)
      else (Inl DbError, w))"

definition replace_key_shares :: "jsstring \<Rightarrow> jsstring \<Rightarrow> ShamirShare list \<Rightarrow> world \<Rightarrow> world" where
  "replace_key_shares fileId userId shares w =
     w\<lparr>key_shares :=
         filter (\<lambda>r. ks_file_id r \<noteq> fileId) (key_shares w) @
         map (\<lambda>share. \<lparr>ks_user_id = userId, ks_file_id = fileId,
                         ks_share_type = shareType share,
                         encrypted_share = encryptedShare share\<rparr>) shares\<rparr>"

definition regenerateFileKey :: "engine \<Rightarrow> jsstring \<Rightarrow> CryptoKey \<Rightarrow> jsstring \<Rightarrow> unit io" where
  "regenerateFileKey E fileId oldKey userId =
     catchW
       (bindW (\<lambda>w. (getFileById fileId w, w)) (\<lambda>found.
          case found of
            None \<Rightarrow> liftE (Inl FileNotFound)
          | Some file \<Rightarrow>
              bindW (decryptFile E file oldKey userId) (\<lambda>decrypted.
              bindW (\<lambda>w. (let (k, w') = generateKey w in (Inr k, w'))) (\<lambda>newKey.
              bindW (encryptData E (BinaryPayload decrypted) newKey) (\<lambda>newEncryption.
              bindW (liftE (exportKey newKey)) (\<lambda>keyString.
              bindW (splitSecretShamir keyString) (\<lambda>shares.
              bindW (update_rotated fileId newEncryption (version file + 1)) (\<lambda>_ w.
                (Inr (),
                 log_activity (Some userId) ''key_regen'' ''success'' None
                   (replace_key_shares fileId userId shares w))))))))))
       (\<lambda>err w. (Inl err, log_activity (Some userId) ''key_regen'' ''failed'' (Some err) w))"

section \<open>A stand-in engine\<close>

text \<open>
  To run the model on concrete inputs the engine's parameters need values. This one
  is not AES: it masks every byte with a sum of key and IV and appends a 16-byte check
  value over key, IV and masked bytes; its digest is a 32-byte check value. It has the
  shape of the real engine (output 16 bytes longer than the input, decryption undoing
  encryption, a changed key, IV or byte rejected when the check value differs).
\<close>

definition demo_mask :: "byte list \<Rightarrow> byte list \<Rightarrow> byte" where
  "demo_mask key ivBytes = foldr (+) (key @ ivBytes) 0"

definition demo_tag :: "byte list \<Rightarrow> byte list \<Rightarrow> byte list \<Rightarrow> byte list" where
  "demo_tag key ivBytes masked = replicate 16 (foldr (+) (key @ ivBytes @ masked) 1)"

definition demo_encrypt :: "byte list \<Rightarrow> byte list \<Rightarrow> byte list \<Rightarrow> byte list" where
  "demo_encrypt key ivBytes plain =
     (let masked = map (\<lambda>b. b XOR demo_mask key ivBytes) plain
      in masked @ demo_tag key ivBytes masked)"

definition demo_decrypt :: "byte list \<Rightarrow> byte list \<Rightarrow> byte list \<Rightarrow> byte list option" where
  "demo_decrypt key ivBytes buffer =
     (if length buffer < 16 then None
      else (let masked = take (length buffer - 16) buffer;
                tag = drop (length buffer - 16) buffer
            in if tag = demo_tag key ivBytes masked
               then Some (map (\<lambda>b. b XOR demo_mask key ivBytes) masked)
               else None))"

definition demo_digest :: "byte list \<Rightarrow> byte list" where
  "demo_digest bs = replicate 32 (foldr (+) bs 7)"

definition demo_engine :: engine where
  "demo_engine = \<lparr>aes_gcm_encrypt = demo_encrypt, aes_gcm_decrypt = demo_decrypt,
                  sha256 = demo_digest\<rparr>"

definition demo_world :: world where
  "demo_world = \<lparr>rng = (\<lambda>i. of_nat (3 * i + 1)), clock = 1000,
                 encrypted_files = [], key_shares = [], share_links = [],
                 activity_logs = []\<rparr>"

text \<open>
  A share link with the one-time-view flag and the password \<^verbatim>\<open>pw\<close>, a file holding the
  two bytes \<^verbatim>\<open>hi\<close> encrypted by the stand-in engine under the key drawn in
  \<open>demo_world\<close>, and a store with both.
\<close>

definition demo_link :: ShareLink where
  "demo_link = \<lparr>share_id = js ''s1'', share_file_id = js ''f1'', share_user_id = js ''u1'',
                 token = js ''t1'',
                 password_hash = Some (js ''7u7u7u7u7u7u7u7u7u7u7u7u7u7u7u7u7u7u7u7u7u4=''),
                 expires_at = None, one_time_view = True, view_count = 0,
                 max_views = None, is_active = True\<rparr>"

definition demo_file :: EncryptedFile where
  "demo_file = \<lparr>file_id = js ''f1'', file_user_id = js ''u1'', file_name = js ''hi.txt'',
                 encrypted_data = js ''Kis='', file_iv = js ''YWRnam1wc3Z5fH+C'',
                 auth_tag = js ''mJiYmJiYmJiYmJiYmJiYmA=='', version = 1,
                 is_deleted = False, deleted_at = None, key_rotation_date = 0,
                 last_accessed = None\<rparr>"

definition demo_store :: world where
  "demo_store = \<lparr>rng = (\<lambda>i. of_nat (5 * i + 3)), clock = 2000,
                  encrypted_files = [demo_file], key_shares = [],
                  share_links = [demo_link], activity_logs = []\<rparr>"

section \<open>Auxiliary definitions\<close>

text \<open>The digits of an encoding without its padding, and the padding alone.\<close>

fun b64_digits :: "byte list \<Rightarrow> nat list" where
  "b64_digits [] = []"
| "b64_digits [a] = (let n = unat a * 16 in [n div 64, n mod 64])"
| "b64_digits [a, b] =
     (let n = (unat a * 256 + unat b) * 4 in [n div 4096, n div 64 mod 64, n mod 64])"
| "b64_digits (a # b # c # rest) =
     (let n = (unat a * 256 + unat b) * 256 + unat c
      in [n div 262144, n div 4096 mod 64, n div 64 mod 64, n mod 64]) @ b64_digits rest"

definition b64_padding :: "byte list \<Rightarrow> jsstring" where
  "b64_padding bs = replicate ((3 - length bs mod 3) mod 3) b64_pad"

text \<open>The shares \<^verbatim>\<open>splitSecretShamir\<close> returns, and the row a rotation leaves.\<close>

definition split_result :: "jsstring \<Rightarrow> world \<Rightarrow> ShamirShare list" where
  "split_result secret w =
     (let s = TextEncoder_encode secret; n = length s;
          r1 = map (rng w) [0..<n];
          r2 = map (\<lambda>i. rng w (i + n)) [0..<n]
      in [\<lparr>shareType = user_share, encryptedShare = b64_encode r1\<rparr>,
          \<lparr>shareType = recovery_share, encryptedShare = b64_encode r2\<rparr>,
          \<lparr>shareType = device_share,
            encryptedShare = b64_encode (map (\<lambda>i. s ! i XOR r1 ! i XOR r2 ! i) [0..<n])\<rparr>])"

definition rotated_file :: "EncryptedFile \<Rightarrow> EncryptionResult \<Rightarrow> int \<Rightarrow> EncryptedFile" where
  "rotated_file file newEncryption now =
     file\<lparr>last_accessed := Some now,
          encrypted_data := encryptedData newEncryption,
          file_iv := iv newEncryption,
          auth_tag := authTag newEncryption,
          key_rotation_date := now,
          version := version file + 1\<rparr>"

section \<open>The codec\<close>

lemma index_of_nth: "distinct xs \<Longrightarrow> n < length xs \<Longrightarrow> index_of (xs ! n) xs = Some n"
proof (induction xs arbitrary: n)
  case Nil then show ?case by simp
next
  case (Cons y ys)
  show ?case
  proof (cases n)
    case 0 then show ?thesis by simp
  next
    case (Suc m)
    with Cons.prems have "m < length ys" "distinct ys" "ys ! m \<noteq> y" by auto
    with Cons.IH[of m] Suc show ?thesis by simp
  qed
qed

lemma b64_alphabet_distinct: "distinct b64_alphabet"
  by (simp add: b64_alphabet_def js_def)

lemma b64_alphabet_length: "length b64_alphabet = 64"
  by (simp add: b64_alphabet_def js_def)

lemma b64_index_char: "n < 64 \<Longrightarrow> b64_index (b64_char n) = Some n"
  by (simp add: b64_index_def b64_char_def index_of_nth b64_alphabet_distinct b64_alphabet_length)

lemma b64_char_in_alphabet: "n < 64 \<Longrightarrow> b64_char n \<in> set b64_alphabet"
  by (simp add: b64_char_def b64_alphabet_length)

lemma b64_pad_not_in_alphabet: "b64_pad \<notin> set b64_alphabet"
  by (simp add: b64_alphabet_def js_def b64_pad_def)

lemma b64_alphabet_no_whitespace: "c \<in> set b64_alphabet \<Longrightarrow> \<not> ascii_whitespace c"
  by (auto simp add: b64_alphabet_def js_def ascii_whitespace_def)

lemma b64_pad_no_whitespace: "\<not> ascii_whitespace b64_pad"
  by (simp add: ascii_whitespace_def b64_pad_def)

lemma replicate_two: "replicate 2 x = [x, x]"
  by (simp add: numeral_2_eq_2)

lemma b64_encode_digits:
  "b64_encode bs = map b64_char (b64_digits bs) @ b64_padding bs"
  by (induction bs rule: b64_encode.induct) (simp_all add: b64_padding_def Let_def replicate_two)

lemma unat_byte_lt: "unat (a :: byte) < 256"
  using unsigned_less [of a, where ?'a = nat] by simp

lemma b64_digits_lt: "d \<in> set (b64_digits bs) \<Longrightarrow> d < 64"
proof (induction bs rule: b64_digits.induct)
  case 1 then show ?case by simp
next
  case (2 a)
  have "unat a < 256" by (rule unat_byte_lt)
  then have "unat a * 16 div 64 < 64" by simp
  with 2 show ?case by (auto simp: Let_def)
next
  case (3 a b)
  have "unat a < 256" "unat b < 256" by (rule unat_byte_lt)+
  then have "(unat a * 256 + unat b) * 4 div 4096 < 64" by simp
  with 3 show ?case by (auto simp: Let_def)
next
  case (4 a b c rest)
  have "unat a < 256" "unat b < 256" "unat c < 256" by (rule unat_byte_lt)+
  then have "((unat a * 256 + unat b) * 256 + unat c) div 262144 < 64" by simp
  with 4 show ?case by (auto simp: Let_def)
qed

lemma b64_digits_length_mod: "length (b64_digits bs) mod 4 \<noteq> 1"
  by (induction bs rule: b64_digits.induct) (simp_all add: Let_def)


lemma b64_encode_length_mod: "length (b64_encode bs) mod 4 = 0"
  by (induction bs rule: b64_encode.induct) (simp_all add: Let_def)

lemma b64_pad_not_body: "b64_pad \<notin> set (map b64_char (b64_digits bs))"
proof
  assume "b64_pad \<in> set (map b64_char (b64_digits bs))"
  then obtain d where "d \<in> set (b64_digits bs)" "b64_pad = b64_char d" by auto
  then have "b64_pad \<in> set b64_alphabet"
    using b64_digits_lt b64_char_in_alphabet by metis
  with b64_pad_not_in_alphabet show False by simp
qed

lemma strip_padding_body:
  assumes pad: "b64_pad \<notin> set body"
    and len: "length (body @ replicate k b64_pad) mod 4 = 0"
    and k: "k \<le> 2"
  shows "strip_padding (body @ replicate k b64_pad) = body"
proof -
  from k consider "k = 0" | "k = 1" | "k = 2" by linarith
  then show ?thesis
  proof cases
    case 1
    show ?thesis
    proof (cases "body = []")
      case True
      with 1 show ?thesis by (simp add: strip_padding_def)
    next
      case False
      then have "last body \<in> set body" by simp
      with pad have "last body \<noteq> b64_pad" by metis
      with 1 False show ?thesis by (simp add: strip_padding_def)
    qed
  next
    case 2
    from len 2 have "body \<noteq> []" by auto
    then have "last body \<in> set body" by simp
    with pad have "last body \<noteq> b64_pad" by metis
    with 2 \<open>body \<noteq> []\<close> len show ?thesis
      by (simp add: strip_padding_def butlast_append)
  next
    case 3
    then have "replicate k b64_pad = [b64_pad, b64_pad]" by (simp add: replicate_two)
    with len show ?thesis
      by (simp add: strip_padding_def butlast_append)
  qed
qed

lemma those_b64_index:
  "(\<And>d. d \<in> set ds \<Longrightarrow> d < 64) \<Longrightarrow> those (map b64_index (map b64_char ds)) = Some ds"
  by (induction ds) (simp_all add: b64_index_char)

lemma recombine2: "n div 64 * 64 + n mod 64 = (n::nat)"
  by simp

lemma recombine3: "(n div 4096 * 64 + n div 64 mod 64) * 64 + n mod 64 = (n::nat)"
proof -
  have "n div 4096 = n div 64 div 64" by (simp add: div_mult2_eq)
  then have "n div 4096 * 64 + n div 64 mod 64 = n div 64" by simp
  then show ?thesis by simp
qed

lemma recombine4:
  "((n div 262144 * 64 + n div 4096 mod 64) * 64 + n div 64 mod 64) * 64 + n mod 64 = (n::nat)"
proof -
  have "n div 262144 = n div 4096 div 64" by (simp add: div_mult2_eq)
  then have "n div 262144 * 64 + n div 4096 mod 64 = n div 4096" by simp
  then show ?thesis by (simp only: recombine3)
qed

lemma div_256_step: "c < 256 \<Longrightarrow> (x * 256 + c) div 256 = (x::nat)"
  by simp

lemma mod_256_step: "c < 256 \<Longrightarrow> (x * 256 + c) mod 256 = (c::nat)"
  by simp

lemma split_bytes3:
  assumes "b < 256" "c < 256"
  shows "((a * 256 + b) * 256 + c) div 65536 = (a::nat)"
    and "((a * 256 + b) * 256 + c) div 256 mod 256 = b"
    and "((a * 256 + b) * 256 + c) mod 256 = c"
proof -
  let ?n = "(a * 256 + b) * 256 + c"
  have d: "?n div 256 = a * 256 + b" using assms(2) by (rule div_256_step)
  have "?n div 65536 = ?n div 256 div 256" by (simp add: div_mult2_eq)
  also have "\<dots> = a" unfolding d using assms(1) by (rule div_256_step)
  finally show "?n div 65536 = a" .
  show "?n div 256 mod 256 = b" unfolding d using assms(1) by (rule mod_256_step)
  show "?n mod 256 = c" using assms(2) by (rule mod_256_step)
qed

lemma b64_decode_digits_digits: "b64_decode_digits (b64_digits bs) = bs"
proof (induction bs rule: b64_digits.induct)
  case 1 then show ?case by simp
next
  case (2 a)
  have "(unat a * 16 div 64 * 64 + unat a * 16 mod 64) div 16 = unat a"
    by (simp only: recombine2)
  then show ?case by (simp add: Let_def)
next
  case (3 a b)
  let ?x = "unat a * 256 + unat b"
  have b: "unat b < 256" by (rule unat_byte_lt)
  have "((?x * 4 div 4096 * 64 + ?x * 4 div 64 mod 64) * 64 + ?x * 4 mod 64) div 4 = ?x"
    by (simp only: recombine3) simp
  moreover have "?x div 256 = unat a" "?x mod 256 = unat b"
    using b by (rule div_256_step, rule mod_256_step)
  ultimately show ?case by (simp add: Let_def)
next
  case (4 a b c rest)
  let ?n = "(unat a * 256 + unat b) * 256 + unat c"
  have b: "unat b < 256" and c: "unat c < 256" by (rule unat_byte_lt)+
  have n: "((?n div 262144 * 64 + ?n div 4096 mod 64) * 64 + ?n div 64 mod 64) * 64 + ?n mod 64 = ?n"
    by (rule recombine4)
  note s = split_bytes3 [OF b c, of "unat a"]
  show ?case
    by (simp only: b64_digits.simps b64_decode_digits.simps Let_def append_Cons append_Nil n s "4.IH") simp
qed


lemma ucast_byte_round: "(ucast (ucast (b :: byte) :: code_unit) :: byte) = b"
  by (rule ucast_up_ucast_id) (simp add: is_up)

lemma unat_ucast_byte: "unat (ucast (b :: byte) :: code_unit) = unat b"
proof -
  have "unat b < 2 ^ 16" using unat_byte_lt [of b] by simp
  then show ?thesis by (simp add: unsigned_ucast_eq take_bit_nat_eq_self)
qed

lemma ucast_byte_le: "\<not> 255 < (ucast (b :: byte) :: code_unit)"
  using unat_byte_lt [of b] by (simp add: word_less_nat_alt unat_ucast_byte)

lemma map_ucast_round: "map ucast (map ucast (bs :: byte list) :: jsstring) = bs"
  by (induction bs) (simp_all add: ucast_byte_round)

lemma btoa_bytes: "btoa (map ucast (bs :: byte list)) = Inr (b64_encode bs)"
  by (simp add: btoa_def list_ex_iff ucast_byte_le map_ucast_round del: map_map)

lemma b64_encode_no_whitespace: "filter (\<lambda>c. \<not> ascii_whitespace c) (b64_encode bs) = b64_encode bs"
proof -
  have "\<not> ascii_whitespace c" if "c \<in> set (b64_encode bs)" for c
  proof -
    from that consider d where "d \<in> set (b64_digits bs)" "c = b64_char d" | "c = b64_pad"
      by (auto simp: b64_encode_digits b64_padding_def)
    then show ?thesis
    proof cases
      case 1
      then show ?thesis
        using b64_digits_lt b64_char_in_alphabet b64_alphabet_no_whitespace by metis
    next
      case 2
      then show ?thesis by (simp add: b64_pad_no_whitespace)
    qed
  qed
  then show ?thesis by (simp add: filter_id_conv)
qed

lemma strip_padding_encode: "strip_padding (b64_encode bs) = map b64_char (b64_digits bs)"
proof -
  have "strip_padding (map b64_char (b64_digits bs) @ replicate ((3 - length bs mod 3) mod 3) b64_pad)
        = map b64_char (b64_digits bs)"
  proof (rule strip_padding_body)
    show "b64_pad \<notin> set (map b64_char (b64_digits bs))" by (rule b64_pad_not_body)
    show "length (map b64_char (b64_digits bs) @ replicate ((3 - length bs mod 3) mod 3) b64_pad) mod 4 = 0"
      using b64_encode_length_mod [of bs] by (simp add: b64_encode_digits b64_padding_def)
    show "(3 - length bs mod 3) mod 3 \<le> 2" by simp
  qed
  then show ?thesis by (simp add: b64_encode_digits b64_padding_def)
qed

lemma atob_encode: "atob (b64_encode bs) = Inr (map ucast bs)"
proof -
  have "those (map b64_index (map b64_char (b64_digits bs))) = Some (b64_digits bs)"
    by (rule those_b64_index) (rule b64_digits_lt)
  then show ?thesis
    using b64_digits_length_mod [of bs]
    by (simp add: atob_def b64_encode_no_whitespace strip_padding_encode
        b64_decode_digits_digits del: map_map)
qed

lemma arrayBufferToBase64_total: "arrayBufferToBase64 b = Inr (b64_encode b)"
  by (simp add: arrayBufferToBase64_def btoa_bytes)

lemma base64ToArrayBuffer_encode: "base64ToArrayBuffer (b64_encode b) = Inr b"
  by (simp add: base64ToArrayBuffer_def atob_encode map_ucast_round del: map_map)

text \<open>
  C8. For every byte sequence \<open>b\<close>, decoding the base64 encoding of \<open>b\<close> returns
  exactly \<open>b\<close>: \<^verbatim>\<open>base64ToArrayBuffer(arrayBufferToBase64(b))\<close> is \<open>b\<close>, neither call
  throws, and the empty sequence encodes to the empty string.
\<close>

theorem base64_round_trip:
  "bindE (arrayBufferToBase64 b) base64ToArrayBuffer = Inr b
   \<and> arrayBufferToBase64 [] = Inr []"
  by (simp add: arrayBufferToBase64_total base64ToArrayBuffer_encode)

text \<open>A character outside the alphabet that is neither white space nor \<open>=\<close> is rejected.\<close>

lemma index_of_None: "x \<notin> set xs \<Longrightarrow> index_of x xs = None"
  by (induction xs) auto

lemma those_None: "x \<in> set xs \<Longrightarrow> f x = None \<Longrightarrow> those (map f xs) = None"
  by (induction xs) (auto split: option.splits)

lemma strip_padding_keeps:
  assumes "c \<in> set d" "c \<noteq> b64_pad"
  shows "c \<in> set (strip_padding d)"
proof -
  have keep: "c \<in> set (butlast xs)" if "c \<in> set xs" "last xs = b64_pad" for xs
  proof -
    from that(1) have "xs \<noteq> []" by auto
    then have "xs = butlast xs @ [last xs]" by simp
    then have "set xs = set (butlast xs) \<union> {last xs}"
      by (metis Un_insert_right list.simps(15) set_append sup_bot.right_neutral list.set(1))
    with that assms(2) show ?thesis by auto
  qed
  show ?thesis
    using assms(1) by (auto simp: strip_padding_def intro: keep)
qed

lemma atob_rejects:
  assumes "c \<in> set s" "\<not> ascii_whitespace c" "c \<noteq> b64_pad" "c \<notin> set b64_alphabet"
  shows "atob s = Inl InvalidCharacterError"
proof -
  let ?d = "strip_padding (filter (\<lambda>c. \<not> ascii_whitespace c) s)"
  from assms(1,2) have "c \<in> set (filter (\<lambda>c. \<not> ascii_whitespace c) s)" by simp
  then have "c \<in> set ?d" using assms(3) by (rule strip_padding_keeps)
  moreover have "b64_index c = None" using assms(4) by (simp add: b64_index_def index_of_None)
  ultimately have "those (map b64_index ?d) = None" by (rule those_None)
  then show ?thesis by (simp add: atob_def Let_def)
qed

section \<open>The stand-in engine at concrete inputs\<close>

lemma demo_literals:
  "js ''Kis='' = b64_encode [42, 43]"
  "js ''YWRnam1wc3Z5fH+C'' = b64_encode [97, 100, 103, 106, 109, 112, 115, 118, 121, 124, 127, 130]"
  "js ''mJiYmJiYmJiYmJiYmJiYmA=='' =
     b64_encode [152, 152, 152, 152, 152, 152, 152, 152, 152, 152, 152, 152, 152, 152, 152, 152]"
  "js ''mZiYmJiYmJiYmJiYmJiYmA=='' =
     b64_encode [153, 152, 152, 152, 152, 152, 152, 152, 152, 152, 152, 152, 152, 152, 152, 152]"
  by (simp_all add: js_def b64_char_def b64_alphabet_def b64_pad_def)


lemma demo_decodings:
  "base64ToArrayBuffer (js ''Kis='') = Inr [42, 43]"
  "base64ToArrayBuffer (js ''YWRnam1wc3Z5fH+C'') =
     Inr [97, 100, 103, 106, 109, 112, 115, 118, 121, 124, 127, 130]"
  "base64ToArrayBuffer (js ''mJiYmJiYmJiYmJiYmJiYmA=='') =
     Inr [152, 152, 152, 152, 152, 152, 152, 152, 152, 152, 152, 152, 152, 152, 152, 152]"
  "base64ToArrayBuffer (js ''mZiYmJiYmJiYmJiYmJiYmA=='') =
     Inr [153, 152, 152, 152, 152, 152, 152, 152, 152, 152, 152, 152, 152, 152, 152, 152]"
  by (simp_all only: demo_literals base64ToArrayBuffer_encode)

lemma demo_key: "fst (generateKey demo_world) =
  AesGcmKey [1, 4, 7, 10, 13, 16, 19, 22, 25, 28, 31, 34, 37, 40, 43, 46, 49, 52, 55,
   58, 61, 64, 67, 70, 73, 76, 79, 82, 85, 88, 91, 94]"
  by code_simp

lemma demo_iv: "fst (draw 12 (snd (generateKey demo_world))) =
  [97, 100, 103, 106, 109, 112, 115, 118, 121, 124, 127, 130]"
  by code_simp


section \<open>Text encoding of ASCII strings\<close>

text \<open>A base64 string is ASCII, so its UTF-8 encoding has one byte for each character.\<close>

lemma unat_lt_80: "(c :: code_unit) < 0x80 \<Longrightarrow> unat c < 128"
  by (simp add: word_less_nat_alt)

lemma not_surrogate_lt: "(c :: code_unit) < 0x80 \<Longrightarrow> \<not> is_lead_surrogate c \<and> \<not> is_trail_surrogate c"
  by (simp add: is_lead_surrogate_def is_trail_surrogate_def word_less_nat_alt word_le_nat_alt)

lemma code_points_ascii: "(\<And>c. c \<in> set s \<Longrightarrow> c < 0x80) \<Longrightarrow> code_points s = map unat s"
  by (induction s rule: code_points.induct) (simp_all add: not_surrogate_lt)

lemma of_nat_unat_ucast: "(of_nat (unat (c :: code_unit)) :: byte) = ucast c"
  by (simp add: unsigned_of_nat) 

lemma utf8_encode_ascii: "c < 0x80 \<Longrightarrow> utf8_encode_code_point (unat (c :: code_unit)) = [ucast c]"
  by (simp add: utf8_encode_code_point_def unat_lt_80 of_nat_unat_ucast)

lemma TextEncoder_ascii:
  assumes "\<And>c. c \<in> set s \<Longrightarrow> c < 0x80"
  shows "TextEncoder_encode s = map ucast s"
proof -
  have "concat (map utf8_encode_code_point (map unat s)) = map ucast s"
    using assms by (induction s) (simp_all add: utf8_encode_ascii)
  then show ?thesis by (simp add: TextEncoder_encode_def code_points_ascii assms)
qed

lemma b64_alphabet_ascii: "c \<in> set b64_alphabet \<Longrightarrow> c < 0x80"
  by (auto simp add: b64_alphabet_def js_def)

lemma b64_encode_ascii: "c \<in> set (b64_encode bs) \<Longrightarrow> c < 0x80"
proof -
  assume "c \<in> set (b64_encode bs)"
  then consider d where "d \<in> set (b64_digits bs)" "c = b64_char d" | "c = b64_pad"
    by (auto simp: b64_encode_digits b64_padding_def)
  then show ?thesis
  proof cases
    case 1
    then show ?thesis using b64_digits_lt b64_char_in_alphabet b64_alphabet_ascii by metis
  next
    case 2
    then show ?thesis by (simp add: b64_pad_def)
  qed
qed

lemma b64_encode_length: "length (b64_encode bs) = 4 * ((length bs + 2) div 3)"
proof (induction bs rule: b64_encode.induct)
  case (4 a b c rest)
  have "(5 + length rest) div 3 = Suc ((2 + length rest) div 3)" by presburger
  with 4 show ?case by (simp add: Let_def)
qed (simp_all add: Let_def)

lemma TextEncoder_b64_length: "length (TextEncoder_encode (b64_encode bs)) = 4 * ((length bs + 2) div 3)"
proof -
  have "TextEncoder_encode (b64_encode bs) = map ucast (b64_encode bs)"
    by (rule TextEncoder_ascii) (rule b64_encode_ascii)
  then show ?thesis by (simp add: b64_encode_length)
qed

section \<open>Encryption and decryption\<close>

lemma js_slice_ciphertext: "js_slice 0 (Some (- authTagLength)) xs = take (length xs - 16) xs"
  by (simp add: js_slice_def authTagLength_def Let_def max_def min_def nat_diff_distrib')

lemma js_slice_tag: "js_slice (- authTagLength) None xs = drop (length xs - 16) xs"
  by (simp add: js_slice_def authTagLength_def Let_def max_def min_def nat_diff_distrib')

lemma getRandomValues_12: "getRandomValues 12 w = (Inr (fst (draw 12 w)), snd (draw 12 w))"
  by (simp add: getRandomValues_def split_beta)

lemma encryptData_eq:
  "encryptData E data key w =
     (let ivBytes = fst (draw 12 w);
          out = aes_gcm_encrypt E (key_bytes key) ivBytes (payload_bytes data)
      in (Inr \<lparr>encryptedData = b64_encode (take (length out - 16) out),
               iv = b64_encode ivBytes,
               authTag = b64_encode (drop (length out - 16) out)\<rparr>,
          snd (draw 12 w)))"
  by (simp add: encryptData_def bindW_def getRandomValues_12 liftE_def Let_def
      js_slice_ciphertext js_slice_tag arrayBufferToBase64_total)

lemma decryptData_encoded:
  "decryptData E (b64_encode c) (b64_encode i) (b64_encode t) key =
     (case aes_gcm_decrypt E (key_bytes key) i (c @ t) of
        Some p \<Rightarrow> Inr p | None \<Rightarrow> Inl DecryptionFailed)"
  by (simp add: decryptData_def base64ToArrayBuffer_encode)

text \<open>
  C1. For every byte sequence \<open>b\<close> and every key \<open>k\<close> (a freshly generated one
  included), decrypting the \<^verbatim>\<open>EncryptionResult\<close> of encrypting \<open>b\<close> under \<open>k\<close> with the
  same key returns exactly \<open>b\<close>. The hypothesis is the engine's own round trip at this
  key, IV and plaintext: what \<^verbatim>\<open>crypto.subtle.decrypt\<close> gives back for what
  \<^verbatim>\<open>crypto.subtle.encrypt\<close> produced.
\<close>

theorem encrypt_decrypt_round_trip:
  assumes "aes_gcm_decrypt E (key_bytes k) (fst (draw 12 w))
             (aes_gcm_encrypt E (key_bytes k) (fst (draw 12 w)) b) = Some b"
  shows "\<exists>r w'. encryptData E (BinaryPayload b) k w = (Inr r, w')
           \<and> decryptData E (encryptedData r) (iv r) (authTag r) k = Inr b"
  using assms by (simp add: encryptData_eq Let_def decryptData_encoded)

theorem encrypt_decrypt_round_trip_witness:
  "\<exists>r w'. encryptData demo_engine (BinaryPayload [104, 105]) (fst (generateKey demo_world))
              (snd (generateKey demo_world)) = (Inr r, w')
         \<and> decryptData demo_engine (encryptedData r) (iv r) (authTag r)
              (fst (generateKey demo_world)) = Inr [104, 105]"
proof (rule encrypt_decrypt_round_trip)
  show "aes_gcm_decrypt demo_engine (key_bytes (fst (generateKey demo_world)))
          (fst (draw 12 (snd (generateKey demo_world))))
          (aes_gcm_encrypt demo_engine (key_bytes (fst (generateKey demo_world)))
             (fst (draw 12 (snd (generateKey demo_world)))) [104, 105]) = Some [104, 105]"
    unfolding demo_key demo_iv by code_simp
qed

lemma draw_length: "length (fst (draw n w)) = n"
  by (simp add: draw_def)

lemma hello_world_bytes: "length (payload_bytes (TextPayload (js ''hello world''))) = 11"
  by (simp add: TextEncoder_encode_def js_def utf8_encode_code_point_def
      is_lead_surrogate_def is_trail_surrogate_def)

text \<open>
  C6. \<^verbatim>\<open>encryptData\<close> returns an \<^verbatim>\<open>EncryptionResult\<close> whose IV decodes to 12 bytes, whose
  tag decodes to the last 16 bytes of the engine's output and whose ciphertext decodes
  to all the bytes before them, so that the ciphertext's length plus 16 is the
  output's length; for the text \<^verbatim>\<open>"hello world"\<close> the ciphertext has 11 bytes. The
  hypothesis is the engine's: AES-GCM with a 128-bit tag returns 16 bytes more than
  it was given.
\<close>

theorem encryptData_shape:
  assumes out: "out = aes_gcm_encrypt E (key_bytes k) (fst (draw 12 w)) (payload_bytes data)"
    and len: "length out = length (payload_bytes data) + 16"
  shows "\<exists>r w' ivBytes ciphertext tag.
           encryptData E data k w = (Inr r, w')
         \<and> base64ToArrayBuffer (iv r) = Inr ivBytes \<and> length ivBytes = 12
         \<and> base64ToArrayBuffer (authTag r) = Inr tag \<and> length tag = 16
         \<and> tag = drop (length out - 16) out
         \<and> base64ToArrayBuffer (encryptedData r) = Inr ciphertext
         \<and> ciphertext = take (length out - 16) out
         \<and> ciphertext @ tag = out
         \<and> length ciphertext + 16 = length out
         \<and> length ciphertext = length (payload_bytes data)
         \<and> (data = TextPayload (js ''hello world'') \<longrightarrow> length ciphertext = 11)"
  using len hello_world_bytes unfolding out [symmetric]
  by (simp add: encryptData_eq Let_def out [symmetric] base64ToArrayBuffer_encode draw_length)

theorem encryptData_shape_witness:
  "\<exists>r w' ivBytes ciphertext tag.
     encryptData demo_engine (TextPayload (js ''hello world'')) (fst (generateKey demo_world))
       (snd (generateKey demo_world)) = (Inr r, w')
     \<and> base64ToArrayBuffer (iv r) = Inr ivBytes \<and> length ivBytes = 12
     \<and> base64ToArrayBuffer (authTag r) = Inr tag \<and> length tag = 16
     \<and> base64ToArrayBuffer (encryptedData r) = Inr ciphertext \<and> length ciphertext = 11"
proof -
  define out where "out = aes_gcm_encrypt demo_engine (key_bytes (fst (generateKey demo_world)))
     (fst (draw 12 (snd (generateKey demo_world)))) (payload_bytes (TextPayload (js ''hello world'')))"
  have "length out = length (payload_bytes (TextPayload (js ''hello world''))) + 16"
    unfolding out_def by (simp add: demo_engine_def demo_encrypt_def demo_tag_def Let_def)
  from encryptData_shape [OF out_def this] show ?thesis by blast
qed

lemma atob_error: "atob s = Inl e \<Longrightarrow> e = InvalidCharacterError"
  by (auto simp: atob_def Let_def split: if_splits option.splits)

lemma base64ToArrayBuffer_error: "base64ToArrayBuffer s = Inl e \<Longrightarrow> e = InvalidCharacterError"
  by (cases "atob s") (auto simp: base64ToArrayBuffer_def dest: atob_error)

lemma decryptData_cases:
  "decryptData E c i t k =
     (case base64ToArrayBuffer c of Inl e \<Rightarrow> Inl InvalidCharacterError | Inr cb \<Rightarrow>
      case base64ToArrayBuffer i of Inl e \<Rightarrow> Inl InvalidCharacterError | Inr ib \<Rightarrow>
      case base64ToArrayBuffer t of Inl e \<Rightarrow> Inl InvalidCharacterError | Inr tb \<Rightarrow>
      case aes_gcm_decrypt E (key_bytes k) ib (cb @ tb) of
        Some p \<Rightarrow> Inr p | None \<Rightarrow> Inl DecryptionFailed)"
  by (auto simp: decryptData_def split: sum.splits dest: base64ToArrayBuffer_error)

text \<open>
  C7, as amended. \<^verbatim>\<open>decryptData\<close> fails with the one generic error exactly when the
  three fields are well-formed base64 and the engine rejects the reassembled bytes,
  whatever the cause (tag, key, IV or ciphertext); a field that is not well-formed
  base64 fails with the codec's \<open>InvalidCharacterError\<close> instead; there is no third
  error, and a returned plaintext is always the one the engine authenticated.
\<close>

theorem decryptData_failure_causes:
  "(decryptData E c i t k = Inl DecryptionFailed) =
     (\<exists>cb ib tb. base64ToArrayBuffer c = Inr cb \<and> base64ToArrayBuffer i = Inr ib
        \<and> base64ToArrayBuffer t = Inr tb
        \<and> aes_gcm_decrypt E (key_bytes k) ib (cb @ tb) = None)
   \<and> (decryptData E c i t k = Inl InvalidCharacterError) =
     (base64ToArrayBuffer c = Inl InvalidCharacterError
        \<or> base64ToArrayBuffer i = Inl InvalidCharacterError
        \<or> base64ToArrayBuffer t = Inl InvalidCharacterError)
   \<and> (decryptData E c i t k = Inr p) =
     (\<exists>cb ib tb. base64ToArrayBuffer c = Inr cb \<and> base64ToArrayBuffer i = Inr ib
        \<and> base64ToArrayBuffer t = Inr tb
        \<and> aes_gcm_decrypt E (key_bytes k) ib (cb @ tb) = Some p)
   \<and> (\<forall>e. decryptData E c i t k = Inl e \<longrightarrow> e = DecryptionFailed \<or> e = InvalidCharacterError)"
  unfolding decryptData_cases
  by (auto split: sum.splits option.splits dest: base64ToArrayBuffer_error)

theorem decryptData_failure_causes_witness:
  "decryptData demo_engine (js ''Kis='') (js ''YWRnam1wc3Z5fH+C'') (js ''mZiYmJiYmJiYmJiYmJiYmA=='')
     (fst (generateKey demo_world)) = Inl DecryptionFailed
   \<and> decryptData demo_engine (js ''Kis='') (js ''YWRnam1wc3Z5fH+C'') (js ''mJiYmJiYmJiYmJiYmJiYmA=='')
     (fst (generateKey demo_world)) = Inr [104, 105]"
proof -
  let ?k = "fst (generateKey demo_world)"
  let ?i = "[97, 100, 103, 106, 109, 112, 115, 118, 121, 124, 127, 130] :: byte list"
  let ?t = "[153, 152, 152, 152, 152, 152, 152, 152, 152, 152, 152, 152, 152, 152, 152, 152] :: byte list"
  let ?t' = "[152, 152, 152, 152, 152, 152, 152, 152, 152, 152, 152, 152, 152, 152, 152, 152] :: byte list"
  have rej: "aes_gcm_decrypt demo_engine (key_bytes ?k) ?i ([42, 43] @ ?t) = None"
    unfolding demo_key by code_simp
  have acc: "aes_gcm_decrypt demo_engine (key_bytes ?k) ?i ([42, 43] @ ?t') = Some [104, 105]"
    unfolding demo_key by code_simp
  have "\<exists>cb ib tb. base64ToArrayBuffer (js ''Kis='') = Inr cb
          \<and> base64ToArrayBuffer (js ''YWRnam1wc3Z5fH+C'') = Inr ib
          \<and> base64ToArrayBuffer (js ''mZiYmJiYmJiYmJiYmJiYmA=='') = Inr tb
          \<and> aes_gcm_decrypt demo_engine (key_bytes ?k) ib (cb @ tb) = None"
    using rej by (simp only: demo_decodings) blast
  moreover have "\<exists>cb ib tb. base64ToArrayBuffer (js ''Kis='') = Inr cb
          \<and> base64ToArrayBuffer (js ''YWRnam1wc3Z5fH+C'') = Inr ib
          \<and> base64ToArrayBuffer (js ''mJiYmJiYmJiYmJiYmJiYmA=='') = Inr tb
          \<and> aes_gcm_decrypt demo_engine (key_bytes ?k) ib (cb @ tb) = Some [104, 105]"
    using acc by (simp only: demo_decodings) blast
  ultimately show ?thesis
    using decryptData_failure_causes [of demo_engine "js ''Kis=''" "js ''YWRnam1wc3Z5fH+C''"
        "js ''mZiYmJiYmJiYmJiYmJiYmA==''" ?k "[104, 105]"]
      decryptData_failure_causes [of demo_engine "js ''Kis=''" "js ''YWRnam1wc3Z5fH+C''"
        "js ''mJiYmJiYmJiYmJiYmJiYmA==''" ?k "[104, 105]"]
    by blast
qed

text \<open>
  C7 as stated fails: a tag string with a character outside the alphabet leaves
  \<^verbatim>\<open>decryptData\<close> with the codec's error, not with the generic one.
\<close>

theorem decryptData_malformed_counterexample:
  "decryptData demo_engine (js ''Kis='') (js ''YWRnam1wc3Z5fH+C'') (js ''mJiYmJiYmJiYmJiYmJiYm*=='')
     (fst (generateKey demo_world)) = Inl InvalidCharacterError"
proof -
  have "atob (js ''mJiYmJiYmJiYmJiYmJiYm*=='') = Inl InvalidCharacterError"
    by (rule atob_rejects [of 42])
       (simp_all add: js_def ascii_whitespace_def b64_pad_def b64_alphabet_def)
  then have "base64ToArrayBuffer (js ''mJiYmJiYmJiYmJiYmJiYm*=='') = Inl InvalidCharacterError"
    by (simp add: base64ToArrayBuffer_def)
  then show ?thesis
    by (simp add: decryptData_def demo_decodings)
qed

text \<open>
  Tampering is detected on the decoded bytes. The last character before the padding
  of a 16-byte tag carries four bits that the decoder discards: with \<open>A\<close> changed to
  \<open>C\<close> (one bit of the character) the tag string decodes to the same bytes, and
  \<^verbatim>\<open>decryptData\<close> returns the plaintext.
\<close>

lemma b64_index_values:
  "b64_index 67 = Some 2" "b64_index 74 = Some 9" "b64_index 89 = Some 24"
  "b64_index 105 = Some 34" "b64_index 109 = Some 38"
  by (simp_all add: b64_index_def b64_alphabet_def js_def)

lemma noncanonical_tag:
  "base64ToArrayBuffer (js ''mJiYmJiYmJiYmJiYmJiYmC=='') =
     Inr [152, 152, 152, 152, 152, 152, 152, 152, 152, 152, 152, 152, 152, 152, 152, 152]"
  by (simp add: base64ToArrayBuffer_def atob_def js_def ascii_whitespace_def strip_padding_def
      b64_pad_def b64_index_values)

lemma decryptData_noncanonical_tag:
  "decryptData demo_engine (js ''Kis='') (js ''YWRnam1wc3Z5fH+C'') (js ''mJiYmJiYmJiYmJiYmJiYmC=='')
     (fst (generateKey demo_world)) = Inr [104, 105]"
proof -
  have "aes_gcm_decrypt demo_engine (key_bytes (fst (generateKey demo_world)))
          [97, 100, 103, 106, 109, 112, 115, 118, 121, 124, 127, 130]
          [42, 43, 152, 152, 152, 152, 152, 152, 152, 152, 152, 152, 152, 152, 152, 152, 152, 152]
        = Some [104, 105]"
    unfolding demo_key by code_simp
  then show ?thesis
    by (simp add: decryptData_def demo_decodings noncanonical_tag)
qed

section \<open>Key import\<close>

lemma short_key_literal:
  "js ''AAAAAAAAAAAAAAAAAAAAAA=='' =
     b64_encode [0, 0, 0, 0, 0, 0, 0, 0, 0, 0, 0, 0, 0, 0, 0, 0]"
  by (simp add: js_def b64_char_def b64_alphabet_def b64_pad_def)

text \<open>
  C9. The claim: for every input string whose base64 decoding has a length other than
  32 bytes, \<^verbatim>\<open>importKey\<close> fails rather than returning a usable key. The code passes
  \<^verbatim>\<open>length: 256\<close> to the import, which does not read it, and checks the length nowhere
  itself: the string \<^verbatim>\<open>AAAAAAAAAAAAAAAAAAAAAA==\<close> decodes to 16 bytes, and \<^verbatim>\<open>importKey\<close>
  returns a key made of them.
\<close>

theorem importKey_short_key_accepted:
  "base64ToArrayBuffer (js ''AAAAAAAAAAAAAAAAAAAAAA=='') =
     Inr [0, 0, 0, 0, 0, 0, 0, 0, 0, 0, 0, 0, 0, 0, 0, 0]
   \<and> length [0, 0, 0, 0, 0, 0, 0, 0, 0, 0, 0, 0, 0, 0, 0, 0 :: byte] = 16
   \<and> importKey (js ''AAAAAAAAAAAAAAAAAAAAAA=='') =
     Inr (AesGcmKey [0, 0, 0, 0, 0, 0, 0, 0, 0, 0, 0, 0, 0, 0, 0, 0])"
  by (simp add: short_key_literal base64ToArrayBuffer_encode importKey_def
      subtle_importKey_raw_def del: b64_encode.simps)

section \<open>Password hashing\<close>

text \<open>
  C10. \<^verbatim>\<open>hashPassword\<close> is deterministic: every invocation on a password returns the
  same string, the base64 of the digest of its UTF-8 bytes, whatever the world it
  runs in; so a link that stores this hash passes the password check of
  \<^verbatim>\<open>validateShareAccess\<close> whenever the same non-empty password is supplied, and the
  verdict is then that of the expiry and view-count checks.
\<close>

theorem hashPassword_deterministic:
  "\<exists>h. hashPassword E password = Inr h
      \<and> h = b64_encode (sha256 E (TextEncoder_encode password))
      \<and> (\<forall>link w. password \<noteq> [] \<longrightarrow> password_hash link = Some h
            \<longrightarrow> validateShareAccess E link (Some password) w =
                (if (case expires_at link of None \<Rightarrow> False | Some t \<Rightarrow> t < clock w) then Inr False
                 else if (case max_views link of None \<Rightarrow> False
                          | Some m \<Rightarrow> m \<noteq> 0 \<and> m \<le> view_count link) then Inr False
                 else Inr True))"
  by (auto simp: hashPassword_def arrayBufferToBase64_total validateShareAccess_def truthy_string_def)

theorem hashPassword_deterministic_witness:
  "hashPassword demo_engine (js ''pw'') = Inr (js ''7u7u7u7u7u7u7u7u7u7u7u7u7u7u7u7u7u7u7u7u7u4='')
   \<and> validateShareAccess demo_engine
        \<lparr>share_id = js ''s1'', share_file_id = js ''f1'', share_user_id = js ''u1'',
         token = js ''t1'',
         password_hash = Some (js ''7u7u7u7u7u7u7u7u7u7u7u7u7u7u7u7u7u7u7u7u7u4=''),
         expires_at = Some 2000, one_time_view = False, view_count = 0,
         max_views = Some 3, is_active = True\<rparr>
        (Some (js ''pw'')) demo_world = Inr True"
proof -
  have enc: "TextEncoder_encode (js ''pw'') = [112, 119]"
    by (simp add: TextEncoder_encode_def js_def utf8_encode_code_point_def
        is_lead_surrogate_def is_trail_surrogate_def)
  have dig: "sha256 demo_engine [112, 119] =
      [238, 238, 238, 238, 238, 238, 238, 238, 238, 238, 238, 238, 238, 238, 238, 238,
       238, 238, 238, 238, 238, 238, 238, 238, 238, 238, 238, 238, 238, 238, 238, 238]"
    by code_simp
  have lit: "b64_encode
      [238, 238, 238, 238, 238, 238, 238, 238, 238, 238, 238, 238, 238, 238, 238, 238,
       238, 238, 238, 238, 238, 238, 238, 238, 238, 238, 238, 238, 238, 238, 238, 238]
      = js ''7u7u7u7u7u7u7u7u7u7u7u7u7u7u7u7u7u7u7u7u7u4=''"
    by (simp add: js_def b64_char_def b64_alphabet_def b64_pad_def)
  have nonempty: "js ''pw'' \<noteq> []" by (simp add: js_def)
  have clock: "clock demo_world = 1000" by (simp add: demo_world_def)
  from hashPassword_deterministic [of demo_engine "js ''pw''"] nonempty clock
  show ?thesis
    unfolding enc dig lit by auto
qed

section \<open>Secret splitting\<close>

lemma getRandomValues_ok:
  "n \<le> 65536 \<Longrightarrow> getRandomValues n w = (Inr (map (rng w) [0..<n]), w\<lparr>rng := \<lambda>i. rng w (i + n)\<rparr>)"
  by (simp add: getRandomValues_def draw_def)

lemma getRandomValues_quota:
  "65536 < n \<Longrightarrow> getRandomValues n w = (Inl QuotaExceededError, w)"
  by (simp add: getRandomValues_def)

lemma splitSecretShamir_eq:
  assumes "length (TextEncoder_encode secret) \<le> 65536"
  shows "splitSecretShamir secret w =
    (let s = TextEncoder_encode secret; n = length s;
         r1 = map (rng w) [0..<n];
         r2 = map (\<lambda>i. rng w (i + n)) [0..<n]
     in (Inr [\<lparr>shareType = user_share, encryptedShare = b64_encode r1\<rparr>,
              \<lparr>shareType = recovery_share, encryptedShare = b64_encode r2\<rparr>,
              \<lparr>shareType = device_share,
                encryptedShare = b64_encode (map (\<lambda>i. s ! i XOR r1 ! i XOR r2 ! i) [0..<n])\<rparr>],
         w\<lparr>rng := \<lambda>i. rng w (i + n + n)\<rparr>))"
  using assms
  by (simp add: splitSecretShamir_def Let_def bindW_def getRandomValues_ok liftE_def
      arrayBufferToBase64_total add.assoc cong: map_cong)

lemma xor3_back:
  assumes "length r1 = length s" "length r2 = length s"
  shows "map2 (XOR) (map2 (XOR) r1 r2) (map (\<lambda>i. s ! i XOR r1 ! i XOR r2 ! i) [0..<length s]) = (s :: byte list)"
  using assms by (auto intro!: nth_equalityI simp: ac_simps)

text \<open>
  C4, as amended. For every secret string whose UTF-8 encoding has at most 65536
  bytes, \<^verbatim>\<open>splitSecretShamir\<close> returns exactly three shares (user, recovery, device),
  each decoding to as many bytes as the encoding of the secret has, and the byte-wise
  XOR of the three decoded shares is that encoding.
\<close>

theorem splitSecretShamir_shares:
  assumes "length (TextEncoder_encode secret) \<le> 65536"
  shows "\<exists>s1 s2 s3 b1 b2 b3 w'.
           splitSecretShamir secret w =
             (Inr [\<lparr>shareType = user_share, encryptedShare = s1\<rparr>,
                   \<lparr>shareType = recovery_share, encryptedShare = s2\<rparr>,
                   \<lparr>shareType = device_share, encryptedShare = s3\<rparr>], w')
         \<and> base64ToArrayBuffer s1 = Inr b1 \<and> base64ToArrayBuffer s2 = Inr b2
         \<and> base64ToArrayBuffer s3 = Inr b3
         \<and> length b1 = length (TextEncoder_encode secret)
         \<and> length b2 = length (TextEncoder_encode secret)
         \<and> length b3 = length (TextEncoder_encode secret)
         \<and> map2 (XOR) (map2 (XOR) b1 b2) b3 = TextEncoder_encode secret"
  by (simp add: splitSecretShamir_eq [OF assms] Let_def base64ToArrayBuffer_encode xor3_back)

theorem splitSecretShamir_shares_witness:
  "\<exists>s1 s2 s3 b1 b2 b3 w'.
     splitSecretShamir (js ''A'') demo_world =
       (Inr [\<lparr>shareType = user_share, encryptedShare = s1\<rparr>,
             \<lparr>shareType = recovery_share, encryptedShare = s2\<rparr>,
             \<lparr>shareType = device_share, encryptedShare = s3\<rparr>], w')
     \<and> base64ToArrayBuffer s1 = Inr b1 \<and> base64ToArrayBuffer s2 = Inr b2
     \<and> base64ToArrayBuffer s3 = Inr b3
     \<and> length b1 = 1 \<and> length b2 = 1 \<and> length b3 = 1
     \<and> map2 (XOR) (map2 (XOR) b1 b2) b3 = [65]"
proof -
  have enc: "TextEncoder_encode (js ''A'') = [65]"
    by (simp add: TextEncoder_encode_def js_def utf8_encode_code_point_def
        is_lead_surrogate_def is_trail_surrogate_def)
  then have "length (TextEncoder_encode (js ''A'')) \<le> 65536" by simp
  from splitSecretShamir_shares [OF this, of demo_world] show ?thesis
    unfolding enc by simp
qed

text \<open>
  C4 as stated fails for a secret of 65537 bytes: \<^verbatim>\<open>crypto.getRandomValues\<close> throws and
  no share is produced.
\<close>

theorem splitSecretShamir_quota:
  "fst (splitSecretShamir (replicate 65537 65) demo_world) = Inl QuotaExceededError"
proof -
  have "TextEncoder_encode (replicate 65537 65) = map ucast (replicate 65537 (65 :: code_unit))"
    by (rule TextEncoder_ascii) auto
  then have "length (TextEncoder_encode (replicate 65537 (65 :: code_unit))) = 65537"
    by simp
  then show ?thesis
    by (simp add: splitSecretShamir_def Let_def bindW_def getRandomValues_quota)
qed

lemma reconstruct_primary_recovery:
  assumes "length (r1 :: byte list) = length r2"
  shows "reconstructSecretShamir (b64_encode r1) (b64_encode r2) =
           Inr (TextDecoder_decode (map (\<lambda>i. r1 ! i XOR r2 ! i) [0..<length r1]))"
  using assms by (simp add: reconstructSecretShamir_def base64ToArrayBuffer_encode)

text \<open>
  C3. The claim: \<^verbatim>\<open>reconstructSecretShamir\<close> applied to the user share and the recovery
  share returns the secret. The code returns the decoding of the XOR of the two random
  arrays, which does not depend on the secret: for the secret \<^verbatim>\<open>"A"\<close> and the random
  bytes 1 and 4 it returns the one-character string U+0005.
\<close>

theorem reconstruct_primary_recovery_fails:
  "fst (splitSecretShamir (js ''A'') demo_world) =
     Inr [\<lparr>shareType = user_share, encryptedShare = js ''AQ==''\<rparr>,
          \<lparr>shareType = recovery_share, encryptedShare = js ''BA==''\<rparr>,
          \<lparr>shareType = device_share, encryptedShare = js ''RA==''\<rparr>]
   \<and> reconstructSecretShamir (js ''AQ=='') (js ''BA=='') = Inr [5]
   \<and> [5] \<noteq> js ''A''"
proof -
  have enc: "TextEncoder_encode (js ''A'') = [65]"
    by (simp add: TextEncoder_encode_def js_def utf8_encode_code_point_def
        is_lead_surrogate_def is_trail_surrogate_def)
  have lits: "js ''AQ=='' = b64_encode [1]" "js ''BA=='' = b64_encode [4]"
    "js ''RA=='' = b64_encode [68]"
    by (simp_all add: js_def b64_char_def b64_alphabet_def b64_pad_def)
  have rng: "rng demo_world 0 = 1" "rng demo_world (Suc 0) = 4"
    by (simp_all add: demo_world_def)
  have split: "fst (splitSecretShamir (js ''A'') demo_world) =
     Inr [\<lparr>shareType = user_share, encryptedShare = b64_encode [1]\<rparr>,
          \<lparr>shareType = recovery_share, encryptedShare = b64_encode [4]\<rparr>,
          \<lparr>shareType = device_share, encryptedShare = b64_encode [68]\<rparr>]"
    by (simp add: splitSecretShamir_eq enc Let_def rng del: b64_encode.simps)
  have dec: "TextDecoder_decode [5] = [5]"
    by (simp add: TextDecoder_decode_def utf8_lead_def utf16_units_def)
  have recon: "reconstructSecretShamir (b64_encode [1]) (b64_encode [4]) = Inr [5]"
    by (simp add: reconstruct_primary_recovery dec del: b64_encode.simps)
  show ?thesis
    unfolding lits using split recon by (simp add: js_def del: b64_encode.simps)
qed

section \<open>Share links\<close>













section \<open>Key rotation\<close>

lemma getFileById_found:
  "filter (\<lambda>f. file_id f = fileId) (encrypted_files w) = [file] \<Longrightarrow> getFileById fileId w = Inr (Some file)"
  by (simp add: getFileById_def maybeSingle_def)

lemma decryptFile_ok:
  assumes "decryptData E (encrypted_data file) (file_iv file) (auth_tag file) key = Inr p"
  shows "decryptFile E file key userId w =
           (Inr p, log_activity (Some userId) ''file_decrypt'' ''success'' None
                     (touch_last_accessed (file_id file) w))"
  using assms by (simp add: decryptFile_def catchW_def bindW_def liftE_def)

lemma log_activity_fields:
  "rng (log_activity u a s e w) = rng w"
  "clock (log_activity u a s e w) = clock w"
  "encrypted_files (log_activity u a s e w) = encrypted_files w"
  "key_shares (log_activity u a s e w) = key_shares w"
  "share_links (log_activity u a s e w) = share_links w"
  by (simp_all add: log_activity_def)

lemma touch_fields:
  "rng (touch_last_accessed i w) = rng w"
  "clock (touch_last_accessed i w) = clock w"
  "encrypted_files (touch_last_accessed i w) =
     map (\<lambda>f. if file_id f = i then f\<lparr>last_accessed := Some (clock w)\<rparr> else f) (encrypted_files w)"
  by (simp_all add: touch_last_accessed_def)

lemma generateKey_eq:
  "generateKey w = (AesGcmKey (map (rng w) [0..<32]), w\<lparr>rng := \<lambda>i. rng w (i + 32)\<rparr>)"
  by (simp add: generateKey_def draw_def)

lemma encryptData_world:
  "encryptData E data key w =
     (let ivBytes = map (rng w) [0..<12];
          out = aes_gcm_encrypt E (key_bytes key) ivBytes (payload_bytes data)
      in (Inr \<lparr>encryptedData = b64_encode (take (length out - 16) out),
               iv = b64_encode ivBytes,
               authTag = b64_encode (drop (length out - 16) out)\<rparr>,
          w\<lparr>rng := \<lambda>i. rng w (i + 12)\<rparr>))"
  by (simp add: encryptData_eq Let_def draw_def)

lemma exportKey_eq: "exportKey key = Inr (b64_encode (key_bytes key))"
  by (simp add: exportKey_def arrayBufferToBase64_total)

lemma splitSecretShamir_result:
  assumes "length (TextEncoder_encode secret) \<le> 65536"
  shows "splitSecretShamir secret w =
           (Inr (split_result secret w),
            w\<lparr>rng := \<lambda>i. rng w (i + length (TextEncoder_encode secret)
                                   + length (TextEncoder_encode secret))\<rparr>)"
  by (simp add: splitSecretShamir_eq [OF assms] split_result_def Let_def)

lemma splitSecretShamir_exported:
  assumes "length raw = 32"
  shows "splitSecretShamir (b64_encode raw) w =
           (Inr (split_result (b64_encode raw) w), w\<lparr>rng := \<lambda>i. rng w (i + 44 + 44)\<rparr>)"
proof -
  have "length (TextEncoder_encode (b64_encode raw)) = 44"
    using assms by (simp add: TextEncoder_b64_length)
  then show ?thesis by (simp add: splitSecretShamir_result)
qed

lemma filter_map_file_id:
  assumes "\<And>f. file_id (g f) = file_id f"
  shows "filter (\<lambda>f. file_id f = k) (map g fs) = map g (filter (\<lambda>f. file_id f = k) fs)"
  by (induction fs) (simp_all add: assms)

lemma regenerateFileKey_eq:
  assumes found: "filter (\<lambda>f. file_id f = fileId) (encrypted_files w) = [file]"
    and old: "decryptData E (encrypted_data file) (file_iv file) (auth_tag file) oldKey = Inr plaintext"
    and range: "pg_integer (version file + 1)"
    and out: "out = aes_gcm_encrypt E (map (rng w) [0..<32]) (map (\<lambda>i. rng w (i + 32)) [0..<12]) plaintext"
    and enc: "newEncryption = \<lparr>encryptedData = b64_encode (take (length out - 16) out),
                                iv = b64_encode (map (\<lambda>i. rng w (i + 32)) [0..<12]),
                                authTag = b64_encode (drop (length out - 16) out)\<rparr>"
  shows "\<exists>w'. regenerateFileKey E fileId oldKey userId w = (Inr (), w')
           \<and> getFileById fileId w' = Inr (Some (rotated_file file newEncryption (clock w)))"
proof -
  have fid: "file_id file = fileId"
  proof -
    have "file \<in> set (filter (\<lambda>f. file_id f = fileId) (encrypted_files w))"
      unfolding found by simp
    then show ?thesis by simp
  qed
  let ?w1 = "log_activity (Some userId) ''file_decrypt'' ''success'' None
               (touch_last_accessed (file_id file) w)"
  let ?w2 = "?w1\<lparr>rng := \<lambda>i. rng ?w1 (i + 32)\<rparr>"
  let ?w3 = "?w2\<lparr>rng := \<lambda>i. rng ?w2 (i + 12)\<rparr>"
  let ?w4 = "?w3\<lparr>rng := \<lambda>i. rng ?w3 (i + 44 + 44)\<rparr>"
  let ?newKey = "AesGcmKey (map (rng w) [0..<32])"
  have s1: "getFileById fileId w = Inr (Some file)" using found by (rule getFileById_found)
  have s2: "decryptFile E file oldKey userId w = (Inr plaintext, ?w1)"
    using old by (rule decryptFile_ok)
  have s3: "generateKey ?w1 = (?newKey, ?w2)"
    by (simp add: generateKey_eq log_activity_fields touch_fields)
  have s4: "encryptData E (BinaryPayload plaintext) ?newKey ?w2 = (Inr newEncryption, ?w3)"
    by (simp add: encryptData_world Let_def log_activity_fields touch_fields out enc)
  have s5: "exportKey ?newKey = Inr (b64_encode (map (rng w) [0..<32]))"
    by (simp add: exportKey_eq)
  have s6: "splitSecretShamir (b64_encode (map (rng w) [0..<32])) ?w3 =
              (Inr (split_result (b64_encode (map (rng w) [0..<32])) ?w3), ?w4)"
    by (rule splitSecretShamir_exported) simp
  obtain w5 where s7: "update_rotated fileId newEncryption (version file + 1) ?w4 = (Inr (), w5)"
    and files5: "encrypted_files w5 =
           map (\<lambda>f. if file_id f = fileId
                     then f\<lparr>encrypted_data := encryptedData newEncryption,
                            file_iv := iv newEncryption,
                            auth_tag := authTag newEncryption,
                            key_rotation_date := clock w,
                            version := version file + 1\<rparr>
                     else f)
             (map (\<lambda>f. if file_id f = fileId then f\<lparr>last_accessed := Some (clock w)\<rparr> else f)
                (encrypted_files w))"
    using range
    by (simp add: update_rotated_def log_activity_fields touch_fields fid)
  let ?w' = "log_activity (Some userId) ''key_regen'' ''success'' None
               (replace_key_shares fileId userId
                  (split_result (b64_encode (map (rng w) [0..<32])) ?w3) w5)"
  have run: "regenerateFileKey E fileId oldKey userId w = (Inr (), ?w')"
    unfolding regenerateFileKey_def catchW_def bindW_def liftE_def
    by (simp only: s1 s2 s3 s4 s5 s6 s7 split sum.case option.case prod.case Let_def)
  have files: "encrypted_files ?w' = encrypted_files w5"
    by (simp add: log_activity_fields replace_key_shares_def)
  have "filter (\<lambda>f. file_id f = fileId) (encrypted_files ?w') =
          [rotated_file file newEncryption (clock w)]"
    unfolding files files5
    by (simp add: filter_map_file_id found fid rotated_file_def)
  then have "getFileById fileId ?w' = Inr (Some (rotated_file file newEncryption (clock w)))"
    by (rule getFileById_found)
  with run show ?thesis by blast
qed

lemma append_take_drop_16: "take (length out - 16) out @ drop (length out - 16) out = out"
  by simp

text \<open>
  C5. After \<^verbatim>\<open>regenerateFileKey\<close> has completed on a file, decrypting the stored
  fields with the old key fails with the generic decryption error, decrypting them
  with the new key gives the original plaintext, and the stored version is the
  previous one plus 1. The rotation completes when the file is found, the old key
  decrypts it and the new version fits the column. The two hypotheses on the engine
  are what AES-GCM is used for: it returns the plaintext under the key that
  encrypted, and its tag check rejects the new ciphertext under the old key.
\<close>

theorem regenerateFileKey_rotates:
  assumes found: "filter (\<lambda>f. file_id f = fileId) (encrypted_files w) = [file]"
    and old: "decryptData E (encrypted_data file) (file_iv file) (auth_tag file) oldKey = Inr plaintext"
    and range: "pg_integer (version file + 1)"
    and newKey: "newKey = fst (generateKey w)"
    and ivBytes: "ivBytes = fst (draw 12 (snd (generateKey w)))"
    and out: "out = aes_gcm_encrypt E (key_bytes newKey) ivBytes plaintext"
    and accepts: "aes_gcm_decrypt E (key_bytes newKey) ivBytes out = Some plaintext"
    and rejects: "aes_gcm_decrypt E (key_bytes oldKey) ivBytes out = None"
  shows "\<exists>w' file'.
           regenerateFileKey E fileId oldKey userId w = (Inr (), w')
         \<and> getFileById fileId w' = Inr (Some file')
         \<and> version file' = version file + 1
         \<and> decryptData E (encrypted_data file') (file_iv file') (auth_tag file') oldKey
             = Inl DecryptionFailed
         \<and> decryptData E (encrypted_data file') (file_iv file') (auth_tag file') newKey
             = Inr plaintext"
proof -
  have k: "key_bytes newKey = map (rng w) [0..<32]"
    by (simp add: newKey generateKey_eq)
  have i: "ivBytes = map (\<lambda>i. rng w (i + 32)) [0..<12]"
    by (simp add: ivBytes generateKey_eq draw_def)
  define newEncryption where
    "newEncryption = \<lparr>encryptedData = b64_encode (take (length out - 16) out),
                       iv = b64_encode (map (\<lambda>i. rng w (i + 32)) [0..<12]),
                       authTag = b64_encode (drop (length out - 16) out)\<rparr>"
  have out': "out = aes_gcm_encrypt E (map (rng w) [0..<32]) (map (\<lambda>i. rng w (i + 32)) [0..<12]) plaintext"
    using out by (simp only: k i)
  from regenerateFileKey_eq [OF found old range out' newEncryption_def, of userId]
  obtain w' where run: "regenerateFileKey E fileId oldKey userId w = (Inr (), w')"
    and get: "getFileById fileId w' = Inr (Some (rotated_file file newEncryption (clock w)))"
    by blast
  let ?f = "rotated_file file newEncryption (clock w)"
  have fields: "encrypted_data ?f = b64_encode (take (length out - 16) out)"
    "file_iv ?f = b64_encode ivBytes"
    "auth_tag ?f = b64_encode (drop (length out - 16) out)"
    "version ?f = version file + 1"
    by (simp_all add: rotated_file_def newEncryption_def i)
  have "decryptData E (encrypted_data ?f) (file_iv ?f) (auth_tag ?f) oldKey = Inl DecryptionFailed"
    unfolding fields decryptData_encoded append_take_drop_16 using rejects by simp
  moreover have "decryptData E (encrypted_data ?f) (file_iv ?f) (auth_tag ?f) newKey = Inr plaintext"
    unfolding fields decryptData_encoded append_take_drop_16 using accepts by simp
  ultimately show ?thesis using run get fields(4) by blast
qed

lemma demo_store_key: "fst (generateKey demo_store) =
  AesGcmKey [3, 8, 13, 18, 23, 28, 33, 38, 43, 48, 53, 58, 63, 68, 73, 78, 83, 88, 93,
   98, 103, 108, 113, 118, 123, 128, 133, 138, 143, 148, 153, 158]"
  by code_simp

lemma demo_store_iv: "fst (draw 12 (snd (generateKey demo_store))) =
  [163, 168, 173, 178, 183, 188, 193, 198, 203, 208, 213, 218]"
  by code_simp

theorem regenerateFileKey_rotates_witness:
  "\<exists>w' file'.
     regenerateFileKey demo_engine (js ''f1'') (fst (generateKey demo_world)) (js ''u1'') demo_store
       = (Inr (), w')
     \<and> getFileById (js ''f1'') w' = Inr (Some file')
     \<and> version file' = 2
     \<and> decryptData demo_engine (encrypted_data file') (file_iv file') (auth_tag file')
          (fst (generateKey demo_world)) = Inl DecryptionFailed
     \<and> decryptData demo_engine (encrypted_data file') (file_iv file') (auth_tag file')
          (fst (generateKey demo_store)) = Inr [104, 105]"
proof -
  let ?old = "fst (generateKey demo_world)"
  let ?new = "fst (generateKey demo_store)"
  let ?iv = "fst (draw 12 (snd (generateKey demo_store)))"
  let ?out = "aes_gcm_encrypt demo_engine (key_bytes ?new) ?iv [104, 105]"
  have found: "filter (\<lambda>f. file_id f = js ''f1'') (encrypted_files demo_store) = [demo_file]"
    by (simp add: demo_store_def demo_file_def)
  have acc: "aes_gcm_decrypt demo_engine (key_bytes ?old)
               [97, 100, 103, 106, 109, 112, 115, 118, 121, 124, 127, 130]
               ([42, 43] @ [152, 152, 152, 152, 152, 152, 152, 152, 152, 152, 152, 152, 152, 152, 152, 152])
             = Some [104, 105]"
    unfolding demo_key by code_simp
  have old: "decryptData demo_engine (encrypted_data demo_file) (file_iv demo_file)
               (auth_tag demo_file) ?old = Inr [104, 105]"
    using acc by (simp add: demo_file_def decryptData_def demo_decodings)
  have range: "pg_integer (version demo_file + 1)"
    by (simp add: demo_file_def pg_integer_def)
  have accepts: "aes_gcm_decrypt demo_engine (key_bytes ?new) ?iv ?out = Some [104, 105]"
    unfolding demo_store_key demo_store_iv by code_simp
  have rejects: "aes_gcm_decrypt demo_engine (key_bytes ?old) ?iv ?out = None"
    unfolding demo_store_key demo_store_iv demo_key by code_simp
  have v: "version demo_file + 1 = 2" by (simp add: demo_file_def)
  from regenerateFileKey_rotates [OF found old range refl refl refl accepts rejects, of "js ''u1''"]
  show ?thesis unfolding v .
qed

end
